theory Spec2Isabelle
  imports Main "HOL-Library.Sublist"
begin

section \<open>JavaScript strings\<close>

text \<open>
  A JavaScript string is a sequence of UTF-16 code units. The model covers the strings
  whose code units are all below 256 (the Latin-1 range, which contains ASCII), with one
  \<^typ>\<open>char\<close> for each code unit. On this range \<^verbatim>\<open>toLowerCase\<close> works code unit by code
  unit and stays inside the range.
\<close>

definition space :: char where
  "space = CHR '' ''"

text \<open>
  The characters matched by \<^verbatim>\<open>\s\<close> and removed by \<^verbatim>\<open>trim()\<close> (ECMAScript WhiteSpace and
  LineTerminator) that lie below 256: TAB, LF, VT, FF, CR, SPACE and NO-BREAK SPACE.
\<close>

definition is_whitespace :: "char \<Rightarrow> bool" where
  "is_whitespace c = ((of_char c :: nat) \<in> {9, 10, 11, 12, 13, 32, 160})"

text \<open>
  \<^verbatim>\<open>toLowerCase()\<close> on one code unit below 256: A-Z and the capital letters U+00C0-U+00D6
  and U+00D8-U+00DE move up by 32, everything else stays.
\<close>

definition lower_char :: "char \<Rightarrow> char" where
  "lower_char c =
     (let n = (of_char c :: nat)
      in if (65 \<le> n \<and> n \<le> 90) \<or> (192 \<le> n \<and> n \<le> 214) \<or> (216 \<le> n \<and> n \<le> 222)
         then char_of (n + 32) else c)"

definition toLowerCase :: "string \<Rightarrow> string" where
  "toLowerCase s = map lower_char s"

text \<open>The character class \<^verbatim>\<open>[-_]\<close>.\<close>

definition is_hyphen_underscore :: "char \<Rightarrow> bool" where
  "is_hyphen_underscore c = (c = CHR ''-'' \<or> c = CHR ''_'')"

text \<open>
  \<^verbatim>\<open>s.replace(/[-_]/g, ' ')\<close>: the global replace scans from the left; a code unit in the
  class is a match of length one and is replaced, any other is copied.
\<close>

fun replace_hyphen_underscore :: "string \<Rightarrow> string" where
  "replace_hyphen_underscore [] = []"
| "replace_hyphen_underscore (c # cs) =
     (if is_hyphen_underscore c then space # replace_hyphen_underscore cs
      else c # replace_hyphen_underscore cs)"

text \<open>
  \<^verbatim>\<open>s.replace(/\s+/g, ' ')\<close>: at a whitespace code unit the greedy \<^verbatim>\<open>\s+\<close> consumes the
  whole run that starts there and the run is replaced by one space; the scan goes on
  behind the run. Any other code unit is copied.
\<close>

function replace_whitespace_runs :: "string \<Rightarrow> string" where
  "replace_whitespace_runs [] = []"
| "replace_whitespace_runs (c # cs) =
     (if is_whitespace c then space # replace_whitespace_runs (dropWhile is_whitespace cs)
      else c # replace_whitespace_runs cs)"
  by pat_completeness auto
termination
  by (relation "measure length") (auto simp: less_Suc_eq_le length_dropWhile_le)

text \<open>\<^verbatim>\<open>s.trim()\<close>: the copy of the string without its leading and trailing whitespace.\<close>

definition trim :: "string \<Rightarrow> string" where
  "trim s = rev (dropWhile is_whitespace (rev (dropWhile is_whitespace s)))"

text \<open>
  The chain applied to the query and to every catalog name in the image lookup:
  \<^verbatim>\<open>x.toLowerCase().replace(/[-_]/g, ' ').replace(/\s+/g, ' ').trim()\<close>.
\<close>

definition normalize_name :: "string \<Rightarrow> string" where
  "normalize_name x = trim (replace_whitespace_runs (replace_hyphen_underscore (toLowerCase x)))"

text \<open>
  The same four steps written from their description, with no use of the definitions
  above: letters are lower-cased, every hyphen and underscore becomes a space, every
  maximal run of whitespace becomes one space, and leading and trailing whitespace is
  removed.
\<close>

text \<open>Whitespace, listed: TAB, LF, VT, FF, CR, SPACE and NO-BREAK SPACE.\<close>

definition whitespace_units :: string where
  "whitespace_units = [CHR 0x09, CHR 0x0A, CHR 0x0B, CHR 0x0C, CHR 0x0D, CHR '' '', CHR 0xA0]"

definition is_whitespace_spec :: "char \<Rightarrow> bool" where
  "is_whitespace_spec c = (c \<in> set whitespace_units)"

text \<open>
  The capital letters below 256 and, at the same positions, their small letters:
  the Latin alphabet, then U+00C0-U+00D6 and U+00D8-U+00DE with U+00E0-U+00F6 and
  U+00F8-U+00FE. A letter that is lower-cased is looked up in this table.
\<close>

definition upper_case_letters :: string where
  "upper_case_letters =
     ''ABCDEFGHIJKLMNOPQRSTUVWXYZ'' @
     [CHR 0xC0, CHR 0xC1, CHR 0xC2, CHR 0xC3, CHR 0xC4, CHR 0xC5, CHR 0xC6, CHR 0xC7,
      CHR 0xC8, CHR 0xC9, CHR 0xCA, CHR 0xCB, CHR 0xCC, CHR 0xCD, CHR 0xCE, CHR 0xCF,
      CHR 0xD0, CHR 0xD1, CHR 0xD2, CHR 0xD3, CHR 0xD4, CHR 0xD5, CHR 0xD6,
      CHR 0xD8, CHR 0xD9, CHR 0xDA, CHR 0xDB, CHR 0xDC, CHR 0xDD, CHR 0xDE]"

definition lower_case_letters :: string where
  "lower_case_letters =
     ''abcdefghijklmnopqrstuvwxyz'' @
     [CHR 0xE0, CHR 0xE1, CHR 0xE2, CHR 0xE3, CHR 0xE4, CHR 0xE5, CHR 0xE6, CHR 0xE7,
      CHR 0xE8, CHR 0xE9, CHR 0xEA, CHR 0xEB, CHR 0xEC, CHR 0xED, CHR 0xEE, CHR 0xEF,
      CHR 0xF0, CHR 0xF1, CHR 0xF2, CHR 0xF3, CHR 0xF4, CHR 0xF5, CHR 0xF6,
      CHR 0xF8, CHR 0xF9, CHR 0xFA, CHR 0xFB, CHR 0xFC, CHR 0xFD, CHR 0xFE]"

definition lower_case_spec :: "char \<Rightarrow> char" where
  "lower_case_spec c =
     (case map_of (zip upper_case_letters lower_case_letters) c of Some l \<Rightarrow> l | None \<Rightarrow> c)"

text \<open>Removing leading whitespace, and removing trailing whitespace.\<close>

fun strip_leading :: "string \<Rightarrow> string" where
  "strip_leading [] = []"
| "strip_leading (c # cs) = (if is_whitespace_spec c then strip_leading cs else c # cs)"

fun strip_trailing :: "string \<Rightarrow> string" where
  "strip_trailing [] = []"
| "strip_trailing (c # cs) =
     (if is_whitespace_spec c \<and> strip_trailing cs = [] then [] else c # strip_trailing cs)"

text \<open>
  Collapsing the runs: a whitespace code unit that follows a whitespace code unit
  disappears, one that starts a run becomes the space.
\<close>

definition collapse_from :: "bool \<Rightarrow> string \<Rightarrow> string" where
  "collapse_from prev0 s =
     concat (map2 (\<lambda>prev c. if is_whitespace_spec c then (if prev then [] else [CHR '' '']) else [c])
                  (prev0 # map is_whitespace_spec s) s)"

definition collapse_runs_spec :: "string \<Rightarrow> string" where
  "collapse_runs_spec s = collapse_from False s"

definition normalize_spec :: "string \<Rightarrow> string" where
  "normalize_spec x =
     strip_trailing (strip_leading (collapse_runs_spec
       (map (\<lambda>c. if c = CHR ''-'' \<or> c = CHR ''_'' then CHR '' '' else c)
         (map lower_case_spec x))))"

text \<open>
  A string in which every whitespace code unit is a space that is not followed by
  another whitespace code unit.
\<close>

fun single_spaced :: "string \<Rightarrow> bool" where
  "single_spaced [] = True"
| "single_spaced (c # cs) =
     ((if is_whitespace c then c = space \<and> (cs = [] \<or> \<not> is_whitespace (hd cs)) else True)
      \<and> single_spaced cs)"

section \<open>Image lookup\<close>

text \<open>
  An entry of the image reference dataset (free-exercise-db): the fields the lookup
  reads. An entry's \<^verbatim>\<open>images\<close> is an array, which is truthy in JavaScript even when empty,
  so the test \<^verbatim>\<open>matchingExercise.images && matchingExercise.images.length > 0\<close> is the test
  that the array is not empty.
\<close>

record ImageCatalogEntry =
  name :: string
  images :: "string list"

type_synonym catalog = "ImageCatalogEntry list"

text \<open>
  \<^verbatim>\<open>a.includes(b)\<close>: \<^verbatim>\<open>b\<close> occurs in \<^verbatim>\<open>a\<close> at some position, tried from position 0 upwards.
\<close>

fun includes_string :: "string \<Rightarrow> string \<Rightarrow> bool" where
  "includes_string [] b = (b = [])"
| "includes_string (c # cs) b = (prefix b (c # cs) \<or> includes_string cs b)"

text \<open>The callback given to \<^verbatim>\<open>exerciseDatabase.find\<close>.\<close>

definition is_match :: "string \<Rightarrow> ImageCatalogEntry \<Rightarrow> bool" where
  "is_match normalizedSearchName ex =
     (let normalizedExName = normalize_name (name ex)
      in includes_string normalizedExName normalizedSearchName \<or>
         includes_string normalizedSearchName normalizedExName)"

definition matchingExercise :: "string \<Rightarrow> catalog \<Rightarrow> ImageCatalogEntry option" where
  "matchingExercise exerciseName exerciseDatabase =
     find (is_match (normalize_name exerciseName)) exerciseDatabase"

text \<open>The template literal that builds the URL of one image.\<close>

definition image_url :: "string \<Rightarrow> string" where
  "image_url img =
     ''https://raw.githubusercontent.com/yuhonas/free-exercise-db/main/exercises/'' @ img"


text \<open>
  The containment rule in the words of its description: one normalized name is a
  contiguous part of the other.
\<close>

definition candidate :: "string \<Rightarrow> ImageCatalogEntry \<Rightarrow> bool" where
  "candidate queryName e =
     (sublist (normalize_name queryName) (normalize_name (name e)) \<or>
      sublist (normalize_name (name e)) (normalize_name queryName))"

text \<open>Position \<open>i\<close> holds the first candidate of the catalog.\<close>

definition first_candidate_at :: "string \<Rightarrow> catalog \<Rightarrow> nat \<Rightarrow> bool" where
  "first_candidate_at queryName cat i =
     (i < length cat \<and> candidate queryName (cat ! i) \<and>
      list_all (\<lambda>e. \<not> candidate queryName e) (take i cat))"

section \<open>The catalog store\<close>

text \<open>
  A row of the table \<^verbatim>\<open>Exercises\<close> of \<^verbatim>\<open>schema.sql\<close>. The text columns are \<^verbatim>\<open>NOT NULL\<close>;
  \<^verbatim>\<open>is_favorited\<close>, \<^verbatim>\<open>last_updated\<close> and \<^verbatim>\<open>created_timestamp\<close> may hold \<^verbatim>\<open>NULL\<close>, which
  is \<open>None\<close>. The column \<^verbatim>\<open>id\<close> is \<open>row_id\<close>. A timestamp is the text that
  \<^verbatim>\<open>CURRENT_TIMESTAMP\<close> yields, which the operations take as an argument.
\<close>

type_synonym timestamp = string

record exercise_row =
  row_id :: int
  exercise_name :: string
  exercise_type :: string
  muscle :: string
  equipment :: string
  difficulty :: string
  instructions :: string
  is_favorited :: "int option"
  last_updated :: "timestamp option"
  created_timestamp :: "timestamp option"

text \<open>
  The database: the rows of the table in storage order, and the largest id ever
  given out, which \<^verbatim>\<open>AUTOINCREMENT\<close> keeps in \<^verbatim>\<open>sqlite_sequence\<close>. The model covers the
  runs in which opening, reading and writing the database file succeed.
\<close>

record store =
  rows :: "exercise_row list"
  seq :: int

text \<open>The errors a database method or a handler can meet, caught by the handler.\<close>

datatype js_error =
    NoValidFields
  | NotNullConstraint
  | TypeError

text \<open>
  \<^verbatim>\<open>UPDATE Exercises SET ... WHERE ...\<close>: every row that satisfies the condition is
  replaced by the row the assignments compute from it, the others stay, and
  \<^verbatim>\<open>this.changes\<close> is the number of rows that satisfied the condition. An assignment
  that violates a constraint fails the whole statement, which then changes nothing.
\<close>

fun sql_update ::
  "(exercise_row \<Rightarrow> bool) \<Rightarrow> (exercise_row \<Rightarrow> js_error + exercise_row) \<Rightarrow> exercise_row list
     \<Rightarrow> js_error + (exercise_row list \<times> nat)" where
  "sql_update cond assign [] = Inr ([], 0)"
| "sql_update cond assign (r # table) =
     (if cond r then
        (case assign r of
           Inl err \<Rightarrow> Inl err
         | Inr r' \<Rightarrow>
             (case sql_update cond assign table of
                Inl err \<Rightarrow> Inl err
              | Inr (table', changes) \<Rightarrow> Inr (r' # table', Suc changes)))
      else
        (case sql_update cond assign table of
           Inl err \<Rightarrow> Inl err
         | Inr (table', changes) \<Rightarrow> Inr (r # table', changes)))"

text \<open>\<^verbatim>\<open>SELECT * FROM Exercises WHERE id = ?\<close> through \<^verbatim>\<open>db.get\<close>: the first such row.\<close>

definition getExerciseById :: "store \<Rightarrow> int \<Rightarrow> exercise_row option" where
  "getExerciseById st i = find (\<lambda>r. row_id r = i) (rows st)"

text \<open>
  \<^verbatim>\<open>SET is_favorited = CASE WHEN is_favorited = 1 THEN 0 ELSE 1 END,
      last_updated = CURRENT_TIMESTAMP WHERE id = ?\<close>.
  The comparison of \<^verbatim>\<open>NULL\<close> with 1 is not true, so \<^verbatim>\<open>NULL\<close> takes the \<^verbatim>\<open>ELSE\<close> branch.
\<close>

definition toggle_row :: "timestamp \<Rightarrow> exercise_row \<Rightarrow> exercise_row" where
  "toggle_row now r =
     r\<lparr>is_favorited := Some (if is_favorited r = Some 1 then 0 else 1),
       last_updated := Some now\<rparr>"

definition toggleFavorite :: "timestamp \<Rightarrow> int \<Rightarrow> store \<Rightarrow> js_error + (store \<times> nat)" where
  "toggleFavorite now i st =
     (case sql_update (\<lambda>r. row_id r = i) (\<lambda>r. Inr (toggle_row now r)) (rows st) of
        Inl err \<Rightarrow> Inl err
      | Inr (table, changes) \<Rightarrow> Inr (st\<lparr>rows := table\<rparr>, changes))"

text \<open>The record sent to the client: \<^verbatim>\<open>is_favorited: exercise.is_favorited === 1\<close>.\<close>

record transformed =
  t_id :: int
  t_name :: string
  t_type :: string
  t_muscle :: string
  t_equipment :: string
  t_difficulty :: string
  t_instructions :: string
  t_is_favorited :: bool

definition transform :: "exercise_row \<Rightarrow> transformed" where
  "transform exercise =
     \<lparr>t_id = row_id exercise,
      t_name = exercise_name exercise,
      t_type = exercise_type exercise,
      t_muscle = muscle exercise,
      t_equipment = equipment exercise,
      t_difficulty = difficulty exercise,
      t_instructions = instructions exercise,
      t_is_favorited = (is_favorited exercise = Some 1)\<rparr>"

text \<open>
  The body of \<^verbatim>\<open>POST /api/exercises\<close>: a field that is absent is \<open>None\<close>; the text fields
  are strings and \<^verbatim>\<open>is_favorited\<close> is a boolean.
\<close>

record new_exercise =
  req_name :: "string option"
  req_type :: "string option"
  req_muscle :: "string option"
  req_equipment :: "string option"
  req_difficulty :: "string option"
  req_instructions :: "string option"
  req_is_favorited :: "bool option"

text \<open>
  A value of the body of \<^verbatim>\<open>PUT /api/exercises/:id\<close>: a string, a boolean or \<^verbatim>\<open>null\<close>.
\<close>

datatype js_value = JString string | JBoolean bool | JNull

text \<open>What a response carries: the JSON body, and the status, 200 unless the handler sets it.\<close>

datatype error_text = Literal string | MessageOf js_error

datatype json_body =
    ImageResult "string list option" bool
  | ErrorResult error_text
  | MissingFields
  | ExerciseResult transformed
  | CreatedResult int new_exercise

datatype response = Response (status: nat) (body: json_body)

section \<open>Handlers\<close>

subsection \<open>\<^verbatim>\<open>GET /api/exercise-image/:exerciseName\<close>\<close>

text \<open>
  \<^verbatim>\<open>loadExerciseDatabase\<close>: \<open>fetched\<close> is what the request to the remote snapshot gives,
  the dataset or \<open>None\<close> when it throws; on a failure the cache stays as it was.
\<close>

definition loadExerciseDatabase :: "catalog option \<Rightarrow> catalog option \<Rightarrow> catalog option" where
  "loadExerciseDatabase fetched exerciseDatabase =
     (case fetched of Some data \<Rightarrow> Some data | None \<Rightarrow> exerciseDatabase)"

text \<open>
  The handler takes the cache \<^verbatim>\<open>exerciseDatabase\<close> (\<open>None\<close> is \<^verbatim>\<open>null\<close>) and returns it with
  the response. \<^verbatim>\<open>res.json\<close> answers with status 200.
\<close>

definition exercise_image_handler ::
  "catalog option \<Rightarrow> catalog option \<Rightarrow> string \<Rightarrow> catalog option \<times> response" where
  "exercise_image_handler fetched exerciseDatabase exerciseName =
     (let db = (if exerciseDatabase = None then loadExerciseDatabase fetched exerciseDatabase
                else exerciseDatabase)
      in case db of
           None \<Rightarrow> (db, Response 200 (ImageResult None False))
         | Some cat \<Rightarrow>
             (case matchingExercise exerciseName cat of
                Some m \<Rightarrow>
                  if images m \<noteq> []
                  then (db, Response 200 (ImageResult (Some (map image_url (images m))) True))
                  else (db, Response 200 (ImageResult None False))
              | None \<Rightarrow> (db, Response 200 (ImageResult None False))))"

subsection \<open>\<^verbatim>\<open>PATCH /api/exercises/:id/favorite\<close>\<close>

text \<open>
  The id of the request is the integer its text denotes; a text that denotes none
  compares equal to no row, like an integer that no row has.
\<close>

definition patch_favorite :: "timestamp \<Rightarrow> int \<Rightarrow> store \<Rightarrow> store \<times> response" where
  "patch_favorite now i st =
     (case toggleFavorite now i st of
        Inl err \<Rightarrow> (st, Response 500 (ErrorResult (MessageOf err)))
      | Inr (st', changes) \<Rightarrow>
          if changes = 0
          then (st', Response 404 (ErrorResult (Literal ''Exercise not found'')))
          else
            (case getExerciseById st' i of
               None \<Rightarrow> (st', Response 404 (ErrorResult (Literal ''Exercise not found after toggle'')))
             | Some exercise \<Rightarrow> (st', Response 200 (ExerciseResult (transform exercise)))))"

subsection \<open>\<^verbatim>\<open>PUT /api/exercises/:id\<close>\<close>

definition allowedFields :: "string list" where
  "allowedFields =
     [''exercise_name'', ''exercise_type'', ''muscle'', ''equipment'', ''difficulty'',
      ''instructions'', ''is_favorited'']"

text \<open>JavaScript truthiness, for \<^verbatim>\<open>value ? 1 : 0\<close>.\<close>

fun truthy :: "js_value \<Rightarrow> bool" where
  "truthy (JString s) = (s \<noteq> [])"
| "truthy (JBoolean b) = b"
| "truthy JNull = False"

text \<open>
  What a text column stores for a bound value: a string as it is, a boolean as the text
  of the integer it is bound as, and \<^verbatim>\<open>null\<close> as \<^verbatim>\<open>NULL\<close> (\<open>None\<close>), which \<^verbatim>\<open>NOT NULL\<close>
  refuses.
\<close>

fun text_column :: "js_value \<Rightarrow> string option" where
  "text_column (JString s) = Some s"
| "text_column (JBoolean b) = Some (if b then ''1'' else ''0'')"
| "text_column JNull = None"

text \<open>One assignment \<^verbatim>\<open>key = ?\<close> of the \<^verbatim>\<open>SET\<close> list, for an allowed key.\<close>

definition set_column :: "string \<Rightarrow> js_value \<Rightarrow> exercise_row \<Rightarrow> js_error + exercise_row" where
  "set_column key v r =
     (if key = ''is_favorited'' then Inr (r\<lparr>is_favorited := Some (if truthy v then 1 else 0)\<rparr>)
      else
        (case text_column v of
           None \<Rightarrow> Inl NotNullConstraint
         | Some s \<Rightarrow>
             if key = ''exercise_name'' then Inr (r\<lparr>exercise_name := s\<rparr>)
             else if key = ''exercise_type'' then Inr (r\<lparr>exercise_type := s\<rparr>)
             else if key = ''muscle'' then Inr (r\<lparr>muscle := s\<rparr>)
             else if key = ''equipment'' then Inr (r\<lparr>equipment := s\<rparr>)
             else if key = ''difficulty'' then Inr (r\<lparr>difficulty := s\<rparr>)
             else Inr (r\<lparr>instructions := s\<rparr>)))"

text \<open>The \<^verbatim>\<open>SET\<close> list from left to right, then \<^verbatim>\<open>last_updated = CURRENT_TIMESTAMP\<close>.\<close>

fun assign_fields ::
  "(string \<times> js_value) list \<Rightarrow> timestamp \<Rightarrow> exercise_row \<Rightarrow> js_error + exercise_row" where
  "assign_fields [] now r = Inr (r\<lparr>last_updated := Some now\<rparr>)"
| "assign_fields ((key, v) # rest) now r =
     (case set_column key v r of
        Inl err \<Rightarrow> Inl err
      | Inr r' \<Rightarrow> assign_fields rest now r')"

text \<open>
  \<^verbatim>\<open>updateExercise\<close>: \<open>updates\<close> is \<^verbatim>\<open>Object.entries(updates)\<close>. The loop keeps the entries
  whose key is allowed; with none it throws.
\<close>

definition updateExercise ::
  "timestamp \<Rightarrow> int \<Rightarrow> (string \<times> js_value) list \<Rightarrow> store \<Rightarrow> js_error + (store \<times> nat)" where
  "updateExercise now i updates st =
     (let allowed = filter (\<lambda>(key, v). key \<in> set allowedFields) updates
      in if allowed = [] then Inl NoValidFields
         else
           (case sql_update (\<lambda>r. row_id r = i) (assign_fields allowed now) (rows st) of
              Inl err \<Rightarrow> Inl err
            | Inr (table, changes) \<Rightarrow> Inr (st\<lparr>rows := table\<rparr>, changes)))"

text \<open>
  The handler. Reading \<^verbatim>\<open>updatedExercise.id\<close> of a row that is not there throws a
  \<^verbatim>\<open>TypeError\<close>, which the handler catches like every other error.
\<close>

definition put_exercise ::
  "timestamp \<Rightarrow> int \<Rightarrow> (string \<times> js_value) list \<Rightarrow> store \<Rightarrow> store \<times> response" where
  "put_exercise now i updates st =
     (case updateExercise now i updates st of
        Inl err \<Rightarrow> (st, Response 500 (ErrorResult (MessageOf err)))
      | Inr (st', changes) \<Rightarrow>
          if changes = 0
          then (st', Response 404 (ErrorResult (Literal ''Exercise not found'')))
          else
            (case getExerciseById st' i of
               None \<Rightarrow> (st', Response 500 (ErrorResult (MessageOf TypeError)))
             | Some updatedExercise \<Rightarrow>
                 (st', Response 200 (ExerciseResult (transform updatedExercise)))))"

subsection \<open>\<^verbatim>\<open>POST /api/exercises\<close>\<close>

text \<open>\<^verbatim>\<open>!name\<close> for a field that is a string or absent.\<close>

definition falsy :: "string option \<Rightarrow> bool" where
  "falsy x = (x = None \<or> x = Some [])"

text \<open>\<^verbatim>\<open>SELECT id FROM Exercises WHERE exercise_name = ? LIMIT 1\<close>, then \<^verbatim>\<open>!!row\<close>.\<close>

definition exerciseExists :: "store \<Rightarrow> string \<Rightarrow> bool" where
  "exerciseExists st n = (find (\<lambda>r. exercise_name r = n) (rows st) \<noteq> None)"

text \<open>
  \<^verbatim>\<open>INSERT INTO Exercises ...\<close>: an absent text field is bound as \<^verbatim>\<open>NULL\<close>, which
  \<^verbatim>\<open>NOT NULL\<close> refuses. \<^verbatim>\<open>AUTOINCREMENT\<close> gives the new row the id after the largest id
  the table has or ever had; \<^verbatim>\<open>last_updated\<close> and \<^verbatim>\<open>created_timestamp\<close> take their
  defaults. The result is \<^verbatim>\<open>this.lastID\<close>.
\<close>

definition createExercise ::
  "timestamp \<Rightarrow> new_exercise \<Rightarrow> store \<Rightarrow> js_error + (store \<times> int)" where
  "createExercise now exercise st =
     (case (req_name exercise, req_type exercise, req_muscle exercise, req_equipment exercise,
            req_difficulty exercise, req_instructions exercise) of
        (Some n, Some t, Some m, Some e, Some d, Some ins) \<Rightarrow>
          (let lastID = max (seq st) (fold (\<lambda>r m. max (row_id r) m) (rows st) 0) + 1;
               r = \<lparr>row_id = lastID, exercise_name = n, exercise_type = t, muscle = m,
                    equipment = e, difficulty = d, instructions = ins,
                    is_favorited = Some (if req_is_favorited exercise = Some True then 1 else 0),
                    last_updated = None, created_timestamp = Some now\<rparr>
           in Inr (\<lparr>rows = rows st @ [r], seq = lastID\<rparr>, lastID))
      | _ \<Rightarrow> Inl NotNullConstraint)"

definition post_exercise :: "timestamp \<Rightarrow> new_exercise \<Rightarrow> store \<Rightarrow> store \<times> response" where
  "post_exercise now req st =
     (if falsy (req_name req) \<or> falsy (req_type req) \<or> falsy (req_muscle req) \<or>
         falsy (req_equipment req) \<or> falsy (req_difficulty req) \<or> falsy (req_instructions req)
      then (st, Response 400 MissingFields)
      else if exerciseExists st (case req_name req of Some n \<Rightarrow> n | None \<Rightarrow> [])
      then (st, Response 409 (ErrorResult (Literal ''Exercise with this name already exists'')))
      else
        (let exercise = req\<lparr>req_is_favorited := Some (req_is_favorited req = Some True)\<rparr>
         in case createExercise now exercise st of
              Inl err \<Rightarrow> (st, Response 500 (ErrorResult (MessageOf err)))
            | Inr (st', lastID) \<Rightarrow> (st', Response 201 (CreatedResult lastID exercise))))"

section \<open>Derived notions and sample data\<close>

text \<open>The boolean a client sees for a row, as \<open>transform\<close> computes it.\<close>

definition isFavorited :: "exercise_row \<Rightarrow> bool" where
  "isFavorited r = (is_favorited r = Some 1)"

text \<open>What \<^verbatim>\<open>SET exercise_name = ?, last_updated = CURRENT_TIMESTAMP\<close> does to one row.\<close>

definition rename_row :: "string \<Rightarrow> timestamp \<Rightarrow> exercise_row \<Rightarrow> exercise_row" where
  "rename_row n now r = r\<lparr>exercise_name := n, last_updated := Some now\<rparr>"

definition example_catalog :: catalog where
  "example_catalog =
     [\<lparr>name = ''Bench Press'', images = [''Bench_Press/0.jpg'', ''Bench_Press/1.jpg'']\<rparr>,
      \<lparr>name = ''Leg-Press'', images = [''Leg_Press/0.jpg'']\<rparr>,
      \<lparr>name = ''Curl'', images = []\<rparr>]"


definition example_store :: store where
  "example_store =
     \<lparr>rows =
        [\<lparr>row_id = 1, exercise_name = ''Curl'', exercise_type = ''strength'', muscle = ''biceps'',
          equipment = ''dumbbell'', difficulty = ''beginner'', instructions = ''Lift.'',
          is_favorited = Some 0, last_updated = None,
          created_timestamp = Some ''2024-01-01 00:00:00''\<rparr>,
         \<lparr>row_id = 2, exercise_name = ''Squat'', exercise_type = ''strength'',
          muscle = ''quadriceps'', equipment = ''barbell'', difficulty = ''intermediate'',
          instructions = ''Sit.'', is_favorited = Some 1, last_updated = None,
          created_timestamp = Some ''2024-01-02 00:00:00''\<rparr>],
      seq = 2\<rparr>"

section \<open>The name normalizer\<close>

subsection \<open>Characters\<close>

lemma lower_char_idem: "lower_char (lower_char c) = lower_char c"
  by (simp add: lower_char_def Let_def)

lemma lower_char_space: "lower_char space = space"
  by (simp add: lower_char_def space_def)

lemma not_hyphen_space: "\<not> is_hyphen_underscore space"
  by (simp add: is_hyphen_underscore_def space_def)

lemma is_whitespace_space: "is_whitespace space"
  by (simp add: is_whitespace_def space_def)

subsection \<open>The four steps against their description\<close>

lemma is_whitespace_spec_eq: "is_whitespace_spec c = is_whitespace c"
proof -
  have "is_whitespace_spec c \<longleftrightarrow> (of_char c :: nat) \<in> of_char ` set whitespace_units"
    unfolding is_whitespace_spec_def by (simp only: inj_image_mem_iff [OF inj_of_char])
  also have "(of_char ` set whitespace_units :: nat set) = {9, 10, 11, 12, 13, 32, 160}"
    by (simp add: whitespace_units_def)
  finally show ?thesis by (simp only: is_whitespace_def)
qed

lemma lower_case_codes:
  "map of_char lower_case_letters = map (\<lambda>n. n + 32) (map of_char upper_case_letters :: nat list)"
  by (simp add: lower_case_letters_def upper_case_letters_def)

lemma upper_case_codes:
  "(n \<in> set (map of_char upper_case_letters :: nat list)) \<longleftrightarrow>
     (65 \<le> n \<and> n \<le> 90) \<or> (192 \<le> n \<and> n \<le> 214) \<or> (216 \<le> n \<and> n \<le> 222)"
  unfolding upper_case_letters_def by simp arith

lemma lower_case_letters_map:
  "lower_case_letters = map (\<lambda>c. char_of ((of_char c :: nat) + 32)) upper_case_letters"
proof -
  have "lower_case_letters = map char_of (map of_char lower_case_letters :: nat list)"
    by (simp add: comp_def)
  also have "\<dots> = map (\<lambda>c. char_of ((of_char c :: nat) + 32)) upper_case_letters"
    by (simp only: lower_case_codes map_map comp_def)
  finally show ?thesis .
qed

lemma lower_case_spec_eq: "lower_case_spec c = lower_char c"
proof -
  let ?n = "of_char c :: nat"
  have m: "map_of (zip upper_case_letters lower_case_letters) c =
        (if c \<in> set upper_case_letters then Some (char_of (?n + 32)) else None)"
    using map_of_zip_map [of upper_case_letters "\<lambda>c. char_of ((of_char c :: nat) + 32)"]
    by (simp only: lower_case_letters_map [symmetric])
  have "c \<in> set upper_case_letters \<longleftrightarrow> ?n \<in> set (map of_char upper_case_letters)"
    by (simp only: set_map inj_image_mem_iff [OF inj_of_char])
  then have u: "c \<in> set upper_case_letters \<longleftrightarrow>
     (65 \<le> ?n \<and> ?n \<le> 90) \<or> (192 \<le> ?n \<and> ?n \<le> 214) \<or> (216 \<le> ?n \<and> ?n \<le> 222)"
    by (simp only: upper_case_codes)
  show ?thesis
    unfolding lower_case_spec_def m lower_char_def Let_def u by simp
qed

lemma strip_leading_eq: "strip_leading s = dropWhile is_whitespace s"
  by (induction s) (simp_all add: is_whitespace_spec_eq)

lemma strip_trailing_eq: "strip_trailing s = rev (dropWhile is_whitespace (rev s))"
proof (induction s)
  case Nil
  show ?case by simp
next
  case (Cons c cs)
  have e: "strip_trailing cs = [] \<longleftrightarrow> (\<forall>x\<in>set cs. is_whitespace x)"
    by (simp add: Cons)
  show ?case
  proof (cases "\<forall>x\<in>set cs. is_whitespace x")
    case True
    then show ?thesis using e by (simp add: dropWhile_append is_whitespace_spec_eq)
  next
    case False
    then show ?thesis using e Cons by (simp add: dropWhile_append is_whitespace_spec_eq)
  qed
qed

lemma trim_as_strips: "trim s = strip_trailing (strip_leading s)"
  by (simp add: trim_def strip_leading_eq strip_trailing_eq)

lemma is_whitespace_spec_fun: "is_whitespace_spec = is_whitespace"
  by (rule ext) (rule is_whitespace_spec_eq)

lemma lower_case_spec_fun: "lower_case_spec = lower_char"
  by (rule ext) (rule lower_case_spec_eq)

lemma collapse_from_Nil [simp]: "collapse_from p [] = []"
  by (simp add: collapse_from_def)

lemma collapse_from_Cons:
  "collapse_from p (c # cs) =
     (if is_whitespace c then (if p then [] else [space]) @ collapse_from True cs
      else c # collapse_from False cs)"
  by (simp add: collapse_from_def is_whitespace_spec_fun space_def)

lemma collapse_from_True_dropWhile:
  "collapse_from True (dropWhile is_whitespace cs) = collapse_from True cs"
  by (induction cs) (simp_all add: collapse_from_Cons)

lemma collapse_from_head:
  "cs = [] \<or> \<not> is_whitespace (hd cs) \<Longrightarrow> collapse_from True cs = collapse_from False cs"
  by (cases cs) (auto simp: collapse_from_Cons)

lemma dropWhile_head: "dropWhile P cs = [] \<or> \<not> P (hd (dropWhile P cs))"
  by (metis hd_dropWhile)

lemma dropWhile_self: "xs = [] \<or> \<not> P (hd xs) \<Longrightarrow> dropWhile P xs = xs"
  by (cases xs) auto

lemma replace_whitespace_runs_collapse:
  "replace_whitespace_runs s = collapse_from False s"
proof (induction s rule: replace_whitespace_runs.induct)
  case 1
  show ?case by simp
next
  case (2 c cs)
  show ?case
  proof (cases "is_whitespace c")
    case True
    let ?r = "dropWhile is_whitespace cs"
    have "replace_whitespace_runs (c # cs) = space # collapse_from False ?r"
      using True 2 by simp
    also have "collapse_from False ?r = collapse_from True ?r"
      using collapse_from_head [of ?r] dropWhile_head [of is_whitespace cs] by simp
    also have "\<dots> = collapse_from True cs"
      by (rule collapse_from_True_dropWhile)
    finally show ?thesis using True by (simp add: collapse_from_Cons)
  next
    case False
    then show ?thesis using 2 by (simp add: collapse_from_Cons)
  qed
qed

lemma replace_hyphen_underscore_map:
  "replace_hyphen_underscore s =
     map (\<lambda>c. if c = CHR ''-'' \<or> c = CHR ''_'' then CHR '' '' else c) s"
  by (induction s) (simp_all add: is_hyphen_underscore_def space_def)

lemma normalize_name_refines: "normalize_name x = normalize_spec x"
  by (simp add: normalize_name_def normalize_spec_def collapse_runs_spec_def
      replace_whitespace_runs_collapse replace_hyphen_underscore_map toLowerCase_def
      trim_as_strips lower_case_spec_fun)

lemma normalize_name_Nil: "normalize_name [] = []"
  by (simp add: normalize_name_def trim_def toLowerCase_def)

text \<open>
  C2. For every input string the normalizer returns the string obtained by lower-casing
  the letters, replacing every hyphen and underscore by a space, collapsing every
  maximal run of whitespace to one space and removing leading and trailing whitespace, in
  that order, each step as its description defines it. It is a total function, the empty
  string gives the empty string, and \<open>leg-_press\<close> gives \<open>leg press\<close> with one space.
  Capitals, outer whitespace, tabs, line breaks, no-break spaces and capitals beyond
  ASCII are treated as described.
\<close>

theorem normalize_name_as_specified:
  "normalize_name x = normalize_spec x \<and>
   normalize_name [] = [] \<and>
   normalize_name ''leg-_press'' = ''leg press'' \<and>
   normalize_name ''  Leg - PRESS__ '' = ''leg press'' \<and>
   normalize_name [CHR 0x09, CHR ''A'', CHR 0xA0, CHR 0x0A, CHR ''B'', CHR 0x0D] = ''a b'' \<and>
   normalize_name [CHR 0xC9, CHR 0xD7, CHR 0xDF] = [CHR 0xE9, CHR 0xD7, CHR 0xDF]"
proof -
  have "normalize_name ''leg-_press'' = ''leg press''"
    by (simp add: normalize_name_def trim_def toLowerCase_def lower_char_def
        is_whitespace_def is_hyphen_underscore_def space_def)
  moreover have "normalize_name ''  Leg - PRESS__ '' = ''leg press''"
    by code_simp
  moreover have
    "normalize_name [CHR 0x09, CHR ''A'', CHR 0xA0, CHR 0x0A, CHR ''B'', CHR 0x0D] = ''a b''"
    by code_simp
  moreover have "normalize_name [CHR 0xC9, CHR 0xD7, CHR 0xDF] = [CHR 0xE9, CHR 0xD7, CHR 0xDF]"
    by code_simp
  ultimately show ?thesis
    using normalize_name_refines normalize_name_Nil by simp
qed

subsection \<open>The shape of a normalized name\<close>

lemma replace_whitespace_runs_hd:
  "s \<noteq> [] \<Longrightarrow> \<not> is_whitespace (hd s) \<Longrightarrow>
     replace_whitespace_runs s \<noteq> [] \<and> hd (replace_whitespace_runs s) = hd s"
  by (cases s) simp_all

lemma single_spaced_replace: "single_spaced (replace_whitespace_runs s)"
proof (induction s rule: replace_whitespace_runs.induct)
  case 1
  show ?case by simp
next
  case (2 c cs)
  show ?case
  proof (cases "is_whitespace c")
    case True
    let ?r = "dropWhile is_whitespace cs"
    have "replace_whitespace_runs ?r = [] \<or> \<not> is_whitespace (hd (replace_whitespace_runs ?r))"
    proof (cases "?r = []")
      case True
      then show ?thesis by (simp del: dropWhile_eq_Nil_conv)
    next
      case False
      then have "\<not> is_whitespace (hd ?r)" by (rule hd_dropWhile)
      with False show ?thesis using replace_whitespace_runs_hd [of ?r] by simp
    qed
    with True 2 show ?thesis by simp
  next
    case False
    with 2 show ?thesis by simp
  qed
qed

lemma replace_single_spaced: "single_spaced s \<Longrightarrow> replace_whitespace_runs s = s"
proof (induction s)
  case Nil
  show ?case by simp
next
  case (Cons c cs)
  show ?case
  proof (cases "is_whitespace c")
    case True
    with Cons.prems have c: "c = space" and h: "cs = [] \<or> \<not> is_whitespace (hd cs)"
      by simp_all
    from h have "dropWhile is_whitespace cs = cs" by (rule dropWhile_self)
    with True c Cons show ?thesis by simp
  next
    case False
    with Cons show ?thesis by simp
  qed
qed

lemma single_spaced_append: "single_spaced (a @ b) \<Longrightarrow> single_spaced a \<and> single_spaced b"
proof (induction a)
  case Nil
  then show ?case by simp
next
  case (Cons c a)
  then show ?case by (cases a) (auto split: if_splits)
qed

lemma trim_Nil: "trim [] = []"
  by (simp add: trim_def)

lemma trim_inside: "\<exists>l r. s = l @ trim s @ r"
proof -
  let ?e = "dropWhile is_whitespace s"
  have "?e = rev (dropWhile is_whitespace (rev ?e)) @ rev (takeWhile is_whitespace (rev ?e))"
    by (metis rev_append rev_rev_ident takeWhile_dropWhile_id)
  then have "?e = trim s @ rev (takeWhile is_whitespace (rev ?e))"
    by (simp only: trim_def)
  moreover have "s = takeWhile is_whitespace s @ ?e" by simp
  ultimately show ?thesis by metis
qed

lemma single_spaced_trim:
  assumes "single_spaced s"
  shows "single_spaced (trim s)"
proof -
  obtain l r where "s = l @ trim s @ r" using trim_inside by blast
  with assms have "single_spaced (l @ trim s @ r)" by simp
  then show ?thesis using single_spaced_append by blast
qed

lemma set_trim: "set (trim s) \<subseteq> set s"
proof -
  obtain l r where "s = l @ trim s @ r" using trim_inside by blast
  then have "set s = set l \<union> set (trim s) \<union> set r" by (metis set_append Un_assoc)
  then show ?thesis by blast
qed

lemma trim_trim: "trim (trim s) = trim s"
proof (cases "trim s = []")
  case True
  then show ?thesis by (simp add: trim_Nil)
next
  case False
  let ?e = "dropWhile is_whitespace s"
  let ?d = "dropWhile is_whitespace (rev ?e)"
  have t: "trim s = rev ?d" by (simp only: trim_def)
  with False have d: "?d \<noteq> []" by simp
  then have hd_d: "\<not> is_whitespace (hd ?d)" by (rule hd_dropWhile)
  have "?e = rev ?d @ rev (takeWhile is_whitespace (rev ?e))"
    by (metis rev_append rev_rev_ident takeWhile_dropWhile_id)
  with d have e: "?e \<noteq> []" and "hd (rev ?d) = hd ?e"
    by (metis append_is_Nil_conv rev_is_Nil_conv, metis hd_append2 rev_is_Nil_conv)
  moreover from e have "\<not> is_whitespace (hd ?e)" by (rule hd_dropWhile)
  ultimately have "dropWhile is_whitespace (rev ?d) = rev ?d"
    by (simp add: dropWhile_self del: dropWhile_eq_Nil_conv)
  moreover have "dropWhile is_whitespace ?d = ?d"
    using hd_d by (rule dropWhile_self [OF disjI2])
  ultimately have "trim (rev ?d) = rev ?d"
    by (simp only: trim_def rev_rev_ident)
  with t show ?thesis by simp
qed

lemma lower_fixed_after: "\<forall>c\<in>set (toLowerCase x). lower_char c = c"
  by (auto simp: toLowerCase_def lower_char_idem)

lemma set_replace_hyphen_underscore:
  "set (replace_hyphen_underscore s) \<subseteq> insert space {c \<in> set s. \<not> is_hyphen_underscore c}"
  by (induction s) auto

lemma set_replace_whitespace_runs:
  "set (replace_whitespace_runs s) \<subseteq> insert space (set s)"
proof (induction s rule: replace_whitespace_runs.induct)
  case 1
  show ?case by simp
next
  case (2 c cs)
  have "set (dropWhile is_whitespace cs) \<subseteq> set cs" by (rule set_dropWhileD [THEN subsetI])
  with 2 show ?case by (cases "is_whitespace c") auto
qed

lemma replace_hyphen_underscore_id:
  "\<forall>c\<in>set s. \<not> is_hyphen_underscore c \<Longrightarrow> replace_hyphen_underscore s = s"
  by (induction s) simp_all

lemma toLowerCase_id: "\<forall>c\<in>set s. lower_char c = c \<Longrightarrow> toLowerCase s = s"
  by (simp add: toLowerCase_def map_idI)

lemma normalize_name_chars:
  "\<forall>c\<in>set (normalize_name x). lower_char c = c \<and> \<not> is_hyphen_underscore c"
proof
  fix c assume "c \<in> set (normalize_name x)"
  then have "c \<in> set (replace_whitespace_runs (replace_hyphen_underscore (toLowerCase x)))"
    using set_trim by (auto simp: normalize_name_def)
  then have "c = space \<or> c \<in> set (replace_hyphen_underscore (toLowerCase x))"
    using set_replace_whitespace_runs by blast
  then have "c = space \<or> (c \<in> set (toLowerCase x) \<and> \<not> is_hyphen_underscore c)"
    using set_replace_hyphen_underscore by blast
  then show "lower_char c = c \<and> \<not> is_hyphen_underscore c"
    using lower_fixed_after lower_char_space not_hyphen_space by blast
qed

lemma single_spaced_normalize_name: "single_spaced (normalize_name x)"
  unfolding normalize_name_def by (intro single_spaced_trim single_spaced_replace)

text \<open>
  C4. Normalization is idempotent: normalizing a normalized name gives it back.
\<close>

theorem normalize_name_idempotent: "normalize_name (normalize_name x) = normalize_name x"
proof -
  let ?t = "normalize_name x"
  have "toLowerCase ?t = ?t"
    using normalize_name_chars by (simp add: toLowerCase_id)
  moreover have "replace_hyphen_underscore ?t = ?t"
    using normalize_name_chars by (simp add: replace_hyphen_underscore_id)
  moreover have "replace_whitespace_runs ?t = ?t"
    using single_spaced_normalize_name by (rule replace_single_spaced)
  moreover have "trim ?t = ?t"
    unfolding normalize_name_def by (rule trim_trim)
  ultimately show ?thesis
    by (simp add: normalize_name_def [of "normalize_name x"])
qed

section \<open>The image lookup\<close>

lemma is_whitespace_lower_char: "is_whitespace (lower_char c) = is_whitespace c"
  by (simp add: lower_char_def Let_def is_whitespace_def)

lemma is_hyphen_underscore_code: "is_hyphen_underscore c = ((of_char c :: nat) \<in> {45, 95})"
proof -
  have "(c = CHR ''-'') = ((of_char c :: nat) = of_char CHR ''-'')"
    and "(c = CHR ''_'') = ((of_char c :: nat) = of_char CHR ''_'')"
    by (simp_all only: of_char_eq_iff)
  then show ?thesis by (auto simp: is_hyphen_underscore_def)
qed

lemma is_hyphen_underscore_lower_char:
  "is_hyphen_underscore (lower_char c) = is_hyphen_underscore c"
  by (simp add: is_hyphen_underscore_code lower_char_def Let_def)

lemma includes_string_sublist: "includes_string a b = sublist b a"
  by (induction a) (simp_all add: sublist_Cons_right)

lemma is_match_candidate: "is_match (normalize_name q) e = candidate q e"
  by (simp add: is_match_def candidate_def includes_string_sublist Let_def disj_commute)

lemma list_all_take: "i < length xs \<Longrightarrow> list_all P (take i xs) \<longleftrightarrow> (\<forall>j<i. P (xs ! j))"
  by (simp add: list_all_length)

lemma matchingExercise_Some:
  "matchingExercise q cat = Some e \<longleftrightarrow> (\<exists>i. first_candidate_at q cat i \<and> e = cat ! i)"
  unfolding matchingExercise_def first_candidate_at_def find_Some_iff is_match_candidate
  by (auto simp: list_all_take)

lemma matchingExercise_None:
  "matchingExercise q cat = None \<longleftrightarrow> list_all (\<lambda>e. \<not> candidate q e) cat"
  unfolding matchingExercise_def find_None_iff is_match_candidate list_all_iff
  by auto

lemma trim_empty_iff: "trim s = [] \<longleftrightarrow> list_all is_whitespace s"
proof -
  let ?e = "dropWhile is_whitespace s"
  have "trim s = [] \<longleftrightarrow> dropWhile is_whitespace (rev ?e) = []"
    by (simp only: trim_def rev_is_Nil_conv)
  also have "\<dots> \<longleftrightarrow> (\<forall>c\<in>set ?e. is_whitespace c)"
    by (simp only: dropWhile_eq_Nil_conv set_rev)
  also have "\<dots> \<longleftrightarrow> ?e = []"
  proof
    assume all: "\<forall>c\<in>set ?e. is_whitespace c"
    show "?e = []"
    proof (rule ccontr)
      assume ne: "?e \<noteq> []"
      then have "\<not> is_whitespace (hd ?e)" by (rule hd_dropWhile)
      moreover from ne have "hd ?e \<in> set ?e" by (rule hd_in_set)
      ultimately show False using all by blast
    qed
  next
    assume "?e = []"
    then show "\<forall>c\<in>set ?e. is_whitespace c" by (simp del: dropWhile_eq_Nil_conv)
  qed
  also have "\<dots> \<longleftrightarrow> list_all is_whitespace s"
    by (simp only: dropWhile_eq_Nil_conv list_all_iff)
  finally show ?thesis .
qed

lemma replace_whitespace_runs_all:
  "list_all is_whitespace (replace_whitespace_runs s) = list_all is_whitespace s"
proof (induction s rule: replace_whitespace_runs.induct)
  case 1
  show ?case by simp
next
  case (2 c cs)
  show ?case
  proof (cases "is_whitespace c")
    case True
    have "list_all is_whitespace (dropWhile is_whitespace cs) = list_all is_whitespace cs"
      by (induction cs) simp_all
    with True 2 show ?thesis by (simp add: is_whitespace_space)
  next
    case False
    then show ?thesis by simp
  qed
qed

lemma normalize_name_empty_iff:
  "normalize_name q = [] \<longleftrightarrow> list_all (\<lambda>c. is_whitespace c \<or> is_hyphen_underscore c) q"
proof -
  have "list_all is_whitespace (replace_hyphen_underscore s) =
        list_all (\<lambda>c. is_whitespace c \<or> is_hyphen_underscore c) s" for s
    by (induction s) (auto simp: is_whitespace_space)
  then have "normalize_name q = [] \<longleftrightarrow>
      list_all (\<lambda>c. is_whitespace c \<or> is_hyphen_underscore c) (toLowerCase q)"
    by (simp only: normalize_name_def trim_empty_iff replace_whitespace_runs_all)
  also have "\<dots> \<longleftrightarrow> list_all (\<lambda>c. is_whitespace c \<or> is_hyphen_underscore c) q"
    by (simp add: toLowerCase_def list_all_iff is_whitespace_lower_char
        is_hyphen_underscore_lower_char)
  finally show ?thesis .
qed

lemma handler_loaded:
  "exercise_image_handler fetched (Some cat) q =
     (Some cat, Response 200
        (case matchingExercise q cat of
           None \<Rightarrow> ImageResult None False
         | Some m \<Rightarrow> if images m \<noteq> [] then ImageResult (Some (map image_url (images m))) True
                     else ImageResult None False))"
  by (simp add: exercise_image_handler_def split: option.splits)


text \<open>
  C1. For every query and every loaded catalog the matcher scans the catalog in its
  order: an entry is a candidate exactly when the normalized query is a contiguous part
  of the normalized entry name or the other way round; the entry found is the candidate
  at the least position, there is none exactly when no entry is a candidate, and the
  images the lookup returns are those of that first candidate.
\<close>

theorem first_candidate_wins:
  "(matchingExercise q cat = None \<longleftrightarrow> list_all (\<lambda>e. \<not> candidate q e) cat) \<and>
   (\<forall>e. matchingExercise q cat = Some e \<longleftrightarrow> (\<exists>i. first_candidate_at q cat i \<and> e = cat ! i)) \<and>
   (\<forall>urls fnd.
      snd (exercise_image_handler fetched (Some cat) q) = Response 200 (ImageResult (Some urls) fnd)
      \<longrightarrow> (\<exists>i. first_candidate_at q cat i \<and> urls = map image_url (images (cat ! i))))"
proof (intro conjI allI impI)
  show "matchingExercise q cat = None \<longleftrightarrow> list_all (\<lambda>e. \<not> candidate q e) cat"
    by (rule matchingExercise_None)
next
  fix e
  show "matchingExercise q cat = Some e \<longleftrightarrow> (\<exists>i. first_candidate_at q cat i \<and> e = cat ! i)"
    by (rule matchingExercise_Some)
next
  fix urls fnd
  assume r: "snd (exercise_image_handler fetched (Some cat) q) =
    Response 200 (ImageResult (Some urls) fnd)"
  show "\<exists>i. first_candidate_at q cat i \<and> urls = map image_url (images (cat ! i))"
  proof (cases "matchingExercise q cat")
    case None
    with r show ?thesis by (simp add: handler_loaded)
  next
    case (Some m)
    with r have "urls = map image_url (images m)"
      by (simp add: handler_loaded split: if_splits)
    moreover from Some obtain i where "first_candidate_at q cat i" "m = cat ! i"
      using matchingExercise_Some by blast
    ultimately show ?thesis by blast
  qed
qed

lemma example_press:
  "exercise_image_handler None (Some example_catalog) ''press'' =
     (Some example_catalog, Response 200 (ImageResult (Some
       [''https://raw.githubusercontent.com/yuhonas/free-exercise-db/main/exercises/Bench_Press/0.jpg'',
        ''https://raw.githubusercontent.com/yuhonas/free-exercise-db/main/exercises/Bench_Press/1.jpg''])
       True))"
  by code_simp

lemma example_press_candidates:
  "candidate ''press'' (example_catalog ! 0) \<and> candidate ''press'' (example_catalog ! 1)"
  by code_simp

theorem first_candidate_wins_witness:
  "candidate ''press'' (example_catalog ! 0) \<and> candidate ''press'' (example_catalog ! 1) \<and>
   snd (exercise_image_handler None (Some example_catalog) ''press'') =
     Response 200 (ImageResult (Some (map image_url (images (example_catalog ! 0)))) True) \<and>
   (\<exists>i. first_candidate_at ''press'' example_catalog i \<and>
        map image_url (images (example_catalog ! 0)) = map image_url (images (example_catalog ! i)))"
proof -
  have r: "snd (exercise_image_handler None (Some example_catalog) ''press'') =
     Response 200 (ImageResult (Some (map image_url (images (example_catalog ! 0)))) True)"
    by code_simp
  from first_candidate_wins [of "''press''" example_catalog None] r
  have "\<exists>i. first_candidate_at ''press'' example_catalog i \<and>
        map image_url (images (example_catalog ! 0)) = map image_url (images (example_catalog ! i))"
    by blast
  with r example_press_candidates show ?thesis by blast
qed

lemma handler_unfold:
  "exercise_image_handler fetched db q =
     (case (if db = None then fetched else db) of
        None \<Rightarrow> (None, Response 200 (ImageResult None False))
      | Some cat \<Rightarrow> exercise_image_handler fetched (Some cat) q)"
  by (cases db; cases fetched)
    (simp_all add: exercise_image_handler_def loadExerciseDatabase_def)

lemma first_candidate_unique:
  "first_candidate_at q cat i \<Longrightarrow> first_candidate_at q cat j \<Longrightarrow> i = j"
proof -
  assume "first_candidate_at q cat i" "first_candidate_at q cat j"
  then have "matchingExercise q cat = Some (cat ! i)" "matchingExercise q cat = Some (cat ! j)"
    and "i < length cat" "j < length cat"
    and ci: "candidate q (cat ! i)" and cj: "candidate q (cat ! j)"
    and li: "list_all (\<lambda>e. \<not> candidate q e) (take i cat)"
    and lj: "list_all (\<lambda>e. \<not> candidate q e) (take j cat)"
    using matchingExercise_Some by (auto simp: first_candidate_at_def)
  then have "\<not> j < i" "\<not> i < j"
    using li lj ci cj by (auto simp: list_all_take)
  then show "i = j" by simp
qed

lemma loaded_not_found_iff:
  "snd (exercise_image_handler fetched (Some cat) q) = Response 200 (ImageResult None False) \<longleftrightarrow>
     list_all (\<lambda>e. \<not> candidate q e) cat \<or>
     (\<exists>i. first_candidate_at q cat i \<and> images (cat ! i) = [])"
proof (cases "matchingExercise q cat")
  case None
  then have "list_all (\<lambda>e. \<not> candidate q e) cat"
    using matchingExercise_None by blast
  with None show ?thesis by (simp add: handler_loaded)
next
  case (Some m)
  then obtain i where i: "first_candidate_at q cat i" "m = cat ! i"
    using matchingExercise_Some by blast
  from Some have "\<not> list_all (\<lambda>e. \<not> candidate q e) cat"
    by (simp add: matchingExercise_None [symmetric])
  moreover have "(\<exists>j. first_candidate_at q cat j \<and> images (cat ! j) = []) \<longleftrightarrow> images m = []"
    using i first_candidate_unique by blast
  ultimately show ?thesis using Some by (simp add: handler_loaded)
qed

text \<open>
  C3. For every query, every cache state and every outcome of the load, the lookup
  answers with status 200 and never fails. The body is \<open>{images: null, found: false}\<close>
  exactly when the catalog is not available (not loaded and the load failed), or no
  entry is a candidate, or the first candidate has no images; otherwise it is
  \<open>{images: urls, found: true}\<close>.
\<close>

theorem image_lookup_response:
  "\<exists>db' b. exercise_image_handler fetched db q = (db', Response 200 b) \<and>
     db' = (if db = None then fetched else db) \<and>
     (b = ImageResult None False \<longleftrightarrow>
        (case db' of
           None \<Rightarrow> True
         | Some cat \<Rightarrow>
             list_all (\<lambda>e. \<not> candidate q e) cat \<or>
             (\<exists>i. first_candidate_at q cat i \<and> images (cat ! i) = []))) \<and>
     (b = ImageResult None False \<or> (\<exists>urls. urls \<noteq> [] \<and> b = ImageResult (Some urls) True))"
proof (cases "if db = None then fetched else db")
  case None
  then have "exercise_image_handler fetched db q = (None, Response 200 (ImageResult None False))"
    by (simp only: handler_unfold [of fetched db q] option.case)
  with None show ?thesis by simp
next
  case (Some cat)
  let ?b = "case matchingExercise q cat of
           None \<Rightarrow> ImageResult None False
         | Some m \<Rightarrow> if images m \<noteq> [] then ImageResult (Some (map image_url (images m))) True
                     else ImageResult None False"
  from Some have h: "exercise_image_handler fetched db q = (Some cat, Response 200 ?b)"
    by (simp only: handler_unfold [of fetched db q] option.case handler_loaded)
  have iff: "?b = ImageResult None False \<longleftrightarrow>
     list_all (\<lambda>e. \<not> candidate q e) cat \<or>
     (\<exists>i. first_candidate_at q cat i \<and> images (cat ! i) = [])"
    using loaded_not_found_iff [of fetched cat q] by (simp add: handler_loaded)
  have alt: "?b = ImageResult None False \<or>
     (\<exists>urls. urls \<noteq> [] \<and> ?b = ImageResult (Some urls) True)"
    by (simp split: option.splits)
  show ?thesis
  proof (intro exI conjI)
    show "exercise_image_handler fetched db q = (Some cat, Response 200 ?b)" by (rule h)
    show "Some cat = (if db = None then fetched else db)" using Some by simp
    show "?b = ImageResult None False \<longleftrightarrow>
      (case Some cat of
         None \<Rightarrow> True
       | Some cat \<Rightarrow>
           list_all (\<lambda>e. \<not> candidate q e) cat \<or>
           (\<exists>i. first_candidate_at q cat i \<and> images (cat ! i) = []))"
      using iff by simp
    show "?b = ImageResult None False \<or>
     (\<exists>urls. urls \<noteq> [] \<and> ?b = ImageResult (Some urls) True)" by (rule alt)
  qed
qed

theorem image_lookup_response_witness:
  "exercise_image_handler None (Some example_catalog) ''curl'' =
     (Some example_catalog, Response 200 (ImageResult None False)) \<and>
   (list_all (\<lambda>e. \<not> candidate ''curl'' e) example_catalog \<or>
    (\<exists>i. first_candidate_at ''curl'' example_catalog i \<and> images (example_catalog ! i) = []))"
proof -
  have e: "exercise_image_handler None (Some example_catalog) ''curl'' =
     (Some example_catalog, Response 200 (ImageResult None False))"
    by code_simp
  from image_lookup_response [of None "Some example_catalog" "''curl''"] e
  show ?thesis by auto
qed



lemma includes_string_Nil: "includes_string a []"
  by (simp add: includes_string_sublist)

text \<open>
  C9. A query normalizes to the empty string exactly when it consists of whitespace,
  hyphens and underscores only (the empty query included). On a loaded catalog that is
  not empty such a query matches the first entry, and the lookup returns that entry's
  URLs with \<open>found: true\<close> whenever the entry has images.
\<close>

theorem empty_query_matches_first_entry:
  "(normalize_name q = [] \<longleftrightarrow> list_all (\<lambda>c. is_whitespace c \<or> is_hyphen_underscore c) q) \<and>
   (normalize_name q = [] \<and> cat \<noteq> [] \<longrightarrow>
      matchingExercise q cat = Some (hd cat) \<and>
      (images (hd cat) \<noteq> [] \<longrightarrow>
         exercise_image_handler fetched (Some cat) q =
           (Some cat, Response 200 (ImageResult (Some (map image_url (images (hd cat)))) True))))"
proof (intro conjI impI)
  show "normalize_name q = [] \<longleftrightarrow> list_all (\<lambda>c. is_whitespace c \<or> is_hyphen_underscore c) q"
    by (rule normalize_name_empty_iff)
next
  assume a: "normalize_name q = [] \<and> cat \<noteq> []"
  then obtain e es where cat: "cat = e # es" by (cases cat) auto
  with a show m: "matchingExercise q cat = Some (hd cat)"
    by (simp add: matchingExercise_def is_match_def includes_string_Nil)
  assume "images (hd cat) \<noteq> []"
  with m show "exercise_image_handler fetched (Some cat) q =
           (Some cat, Response 200 (ImageResult (Some (map image_url (images (hd cat)))) True))"
    by (simp add: handler_loaded)
qed

theorem empty_query_matches_first_entry_witness:
  "normalize_name '' -_ '' = [] \<and> example_catalog \<noteq> [] \<and> images (hd example_catalog) \<noteq> [] \<and>
   matchingExercise '' -_ '' example_catalog = Some (hd example_catalog) \<and>
   exercise_image_handler None (Some example_catalog) '' -_ '' =
     (Some example_catalog,
      Response 200 (ImageResult (Some (map image_url (images (hd example_catalog)))) True))"
proof -
  have "normalize_name '' -_ '' = []" "example_catalog \<noteq> []" "images (hd example_catalog) \<noteq> []"
    by code_simp+
  with empty_query_matches_first_entry [of "'' -_ ''" example_catalog None]
  show ?thesis by simp
qed

section \<open>The favorite toggle and the update\<close>

lemma sql_update_Inr:
  "sql_update cond (\<lambda>r. Inr (f r)) table =
     Inr (map (\<lambda>r. if cond r then f r else r) table, length (filter cond table))"
  by (induction table) simp_all

lemma toggleFavorite_eq:
  "toggleFavorite now i st =
     Inr (st\<lparr>rows := map (\<lambda>r. if row_id r = i then toggle_row now r else r) (rows st)\<rparr>,
          length (filter (\<lambda>r. row_id r = i) (rows st)))"
  by (simp add: toggleFavorite_def sql_update_Inr)

lemma find_map_keeping:
  "(\<And>r. P (g r) = P r) \<Longrightarrow> find P (map g xs) = map_option g (find P xs)"
  by (induction xs) simp_all

lemma row_id_toggle_row [simp]: "row_id (toggle_row now r) = row_id r"
  by (simp add: toggle_row_def)

lemma getExerciseById_toggled:
  "getExerciseById
     (st\<lparr>rows := map (\<lambda>r. if row_id r = i then toggle_row now r else r) (rows st)\<rparr>) i =
   map_option (toggle_row now) (getExerciseById st i)"
proof -
  have "find (\<lambda>r. row_id r = i) (map (\<lambda>r. if row_id r = i then toggle_row now r else r) xs) =
        map_option (toggle_row now) (find (\<lambda>r. row_id r = i) xs)" for xs
    by (induction xs) simp_all
  then show ?thesis by (simp add: getExerciseById_def)
qed

lemma find_Some_set: "find P xs = Some x \<Longrightarrow> x \<in> set xs \<and> P x"
  by (induction xs) (auto split: if_splits)

lemma getExerciseById_Some_filter:
  assumes "getExerciseById st i = Some r"
  shows "0 < length (filter (\<lambda>r. row_id r = i) (rows st))"
proof -
  from assms have "r \<in> set (rows st) \<and> row_id r = i"
    unfolding getExerciseById_def by (rule find_Some_set)
  then have "filter (\<lambda>r. row_id r = i) (rows st) \<noteq> []"
    by (auto simp: filter_empty_conv)
  then show ?thesis by simp
qed

lemma getExerciseById_None_all:
  "getExerciseById st i = None \<Longrightarrow> \<forall>r\<in>set (rows st). row_id r \<noteq> i"
  by (auto simp: getExerciseById_def find_None_iff)

lemma isFavorited_toggle_row: "isFavorited (toggle_row now r) = (\<not> isFavorited r)"
  by (simp add: isFavorited_def toggle_row_def)

lemma patch_favorite_found:
  assumes "getExerciseById st i = Some r"
  shows "patch_favorite now i st =
     (st\<lparr>rows := map (\<lambda>r. if row_id r = i then toggle_row now r else r) (rows st)\<rparr>,
      Response 200 (ExerciseResult (transform (toggle_row now r))))"
  using assms getExerciseById_Some_filter [OF assms]
  by (simp add: patch_favorite_def toggleFavorite_eq getExerciseById_toggled)

text \<open>
  C5. For every id that has a record, one toggle answers 200 with the record, inverts
  its \<open>isFavorited\<close> value and sets its modification timestamp; a second toggle on the
  same id brings \<open>isFavorited\<close> back to the original value.
\<close>

theorem toggle_inverts_and_returns:
  assumes "getExerciseById st i = Some r"
  shows "\<exists>st1 r1 st2 r2.
     patch_favorite now1 i st = (st1, Response 200 (ExerciseResult (transform r1))) \<and>
     getExerciseById st1 i = Some r1 \<and>
     isFavorited r1 = (\<not> isFavorited r) \<and>
     t_is_favorited (transform r1) = (\<not> t_is_favorited (transform r)) \<and>
     last_updated r1 = Some now1 \<and>
     patch_favorite now2 i st1 = (st2, Response 200 (ExerciseResult (transform r2))) \<and>
     getExerciseById st2 i = Some r2 \<and>
     isFavorited r2 = isFavorited r \<and>
     t_is_favorited (transform r2) = t_is_favorited (transform r) \<and>
     last_updated r2 = Some now2"
proof -
  let ?st1 = "st\<lparr>rows := map (\<lambda>r. if row_id r = i then toggle_row now1 r else r) (rows st)\<rparr>"
  let ?r1 = "toggle_row now1 r"
  let ?st2 = "?st1\<lparr>rows := map (\<lambda>r. if row_id r = i then toggle_row now2 r else r) (rows ?st1)\<rparr>"
  let ?r2 = "toggle_row now2 ?r1"
  have p1: "patch_favorite now1 i st = (?st1, Response 200 (ExerciseResult (transform ?r1)))"
    using assms by (rule patch_favorite_found)
  have g1: "getExerciseById ?st1 i = Some ?r1"
    using assms by (simp only: getExerciseById_toggled option.map)
  then have p2: "patch_favorite now2 i ?st1 = (?st2, Response 200 (ExerciseResult (transform ?r2)))"
    by (rule patch_favorite_found)
  have g2: "getExerciseById ?st2 i = Some ?r2"
    using g1 by (simp only: getExerciseById_toggled option.map)
  have f1: "isFavorited ?r1 = (\<not> isFavorited r)" and f2: "isFavorited ?r2 = isFavorited r"
    by (simp_all add: isFavorited_toggle_row)
  have t: "t_is_favorited (transform x) = isFavorited x" for x
    by (simp add: transform_def isFavorited_def)
  have l: "last_updated ?r1 = Some now1" "last_updated ?r2 = Some now2"
    by (simp_all add: toggle_row_def)
  from p1 g1 f1 p2 g2 f2 l show ?thesis
    unfolding t by blast
qed

theorem toggle_inverts_and_returns_witness:
  "getExerciseById example_store 2 = Some (rows example_store ! 1) \<and>
   isFavorited (rows example_store ! 1) \<and>
   (\<exists>st1 r1 st2 r2.
      patch_favorite ''2024-02-01 10:00:00'' 2 example_store =
        (st1, Response 200 (ExerciseResult (transform r1))) \<and>
      \<not> isFavorited r1 \<and> last_updated r1 = Some ''2024-02-01 10:00:00'' \<and>
      patch_favorite ''2024-02-01 10:05:00'' 2 st1 =
        (st2, Response 200 (ExerciseResult (transform r2))) \<and>
      isFavorited r2)"
proof -
  have g: "getExerciseById example_store 2 = Some (rows example_store ! 1)"
    by (simp add: getExerciseById_def example_store_def)
  have f: "isFavorited (rows example_store ! 1)"
    by (simp add: isFavorited_def example_store_def)
  from toggle_inverts_and_returns
    [OF g, of "''2024-02-01 10:00:00''" "''2024-02-01 10:05:00''"] f g
  show ?thesis by blast
qed

text \<open>
  C6. For every id that has no record, the toggle answers 404 with an error body, and
  the store after it is the store before it: no field of any record is modified.
\<close>

theorem toggle_missing_id:
  assumes "getExerciseById st i = None"
  shows "patch_favorite now i st = (st, Response 404 (ErrorResult (Literal ''Exercise not found'')))
     \<and> toggleFavorite now i st = Inr (st, 0)"
proof -
  from assms have all: "\<forall>r\<in>set (rows st). row_id r \<noteq> i"
    by (rule getExerciseById_None_all)
  then have "map (\<lambda>r. if row_id r = i then toggle_row now r else r) (rows st) = rows st"
    by (simp add: map_idI)
  moreover from all have "filter (\<lambda>r. row_id r = i) (rows st) = []"
    by (simp add: filter_empty_conv)
  ultimately have "toggleFavorite now i st = Inr (st, 0)"
    by (simp add: toggleFavorite_eq)
  then show ?thesis by (simp add: patch_favorite_def)
qed

theorem toggle_missing_id_witness:
  "getExerciseById example_store 7 = None \<and>
   patch_favorite ''2024-02-01 10:00:00'' 7 example_store =
     (example_store, Response 404 (ErrorResult (Literal ''Exercise not found'')))"
proof -
  have g: "getExerciseById example_store 7 = None"
    by (simp add: getExerciseById_def example_store_def)
  from toggle_missing_id [OF g, of "''2024-02-01 10:00:00''"] g
  show ?thesis by simp
qed

text \<open>
  C8. A toggle succeeds and changes at most \<open>is_favorited\<close> and \<open>last_updated\<close> of the
  rows with the given id: every row keeps its id, name, type, muscle, equipment,
  difficulty, instructions and creation timestamp, every row with another id is
  unchanged, and the number of rows and the id sequence stay.
\<close>

theorem toggle_frame:
  "\<exists>st' changes. toggleFavorite now i st = Inr (st', changes) \<and>
     seq st' = seq st \<and> length (rows st') = length (rows st) \<and>
     (\<forall>k<length (rows st).
        row_id (rows st' ! k) = row_id (rows st ! k) \<and>
        exercise_name (rows st' ! k) = exercise_name (rows st ! k) \<and>
        exercise_type (rows st' ! k) = exercise_type (rows st ! k) \<and>
        muscle (rows st' ! k) = muscle (rows st ! k) \<and>
        equipment (rows st' ! k) = equipment (rows st ! k) \<and>
        difficulty (rows st' ! k) = difficulty (rows st ! k) \<and>
        instructions (rows st' ! k) = instructions (rows st ! k) \<and>
        created_timestamp (rows st' ! k) = created_timestamp (rows st ! k) \<and>
        (row_id (rows st ! k) \<noteq> i \<longrightarrow> rows st' ! k = rows st ! k))"
  by (simp add: toggleFavorite_eq toggle_row_def)

theorem toggle_frame_witness:
  "\<exists>st' changes.
     toggleFavorite ''2024-02-01 10:00:00'' 2 example_store = Inr (st', changes) \<and>
     rows st' ! 0 = rows example_store ! 0 \<and>
     exercise_name (rows st' ! 1) = ''Squat'' \<and>
     created_timestamp (rows st' ! 1) = Some ''2024-01-02 00:00:00''"
proof -
  have l: "(0::nat) < length (rows example_store)" "(1::nat) < length (rows example_store)"
    and r: "row_id (rows example_store ! 0) \<noteq> 2"
      "exercise_name (rows example_store ! 1) = ''Squat''"
      "created_timestamp (rows example_store ! 1) = Some ''2024-01-02 00:00:00''"
    by (simp_all add: example_store_def)
  from toggle_frame [of "''2024-02-01 10:00:00''" 2 example_store] l r
  show ?thesis by metis
qed

lemma assign_exercise_name:
  "assign_fields [(''exercise_name'', JString n)] now = (\<lambda>r. Inr (rename_row n now r))"
  by (rule ext) (simp add: set_column_def rename_row_def)

lemma updateExercise_name:
  "updateExercise now i [(''exercise_name'', JString n)] st =
     Inr (st\<lparr>rows := map (\<lambda>r. if row_id r = i then rename_row n now r else r) (rows st)\<rparr>,
          length (filter (\<lambda>r. row_id r = i) (rows st)))"
  by (simp add: updateExercise_def allowedFields_def assign_exercise_name sql_update_Inr)

lemma find_Some_ex: "x \<in> set xs \<Longrightarrow> P x \<Longrightarrow> \<exists>y. find P xs = Some y"
  by (induction xs) auto

lemma put_exercise_name:
  assumes "b \<in> set (rows st)" and "row_id b = i"
  shows "\<exists>u. u \<in> set (rows st) \<and> row_id u = i \<and>
     put_exercise now i [(''exercise_name'', JString n)] st =
       (st\<lparr>rows := map (\<lambda>r. if row_id r = i then rename_row n now r else r) (rows st)\<rparr>,
        Response 200 (ExerciseResult (transform (rename_row n now u))))"
proof -
  let ?g = "\<lambda>r. if row_id r = i then rename_row n now r else r"
  let ?st' = "st\<lparr>rows := map ?g (rows st)\<rparr>"
  from assms obtain u where u: "find (\<lambda>r. row_id r = i) (rows st) = Some u"
    using find_Some_ex [of b "rows st" "\<lambda>r. row_id r = i"] by blast
  then have us: "u \<in> set (rows st) \<and> row_id u = i" by (rule find_Some_set)
  have "row_id (?g r) = i \<longleftrightarrow> row_id r = i" for r
    by (simp add: rename_row_def)
  then have "find (\<lambda>r. row_id r = i) (map ?g (rows st)) = map_option ?g (Some u)"
    using find_map_keeping [of "\<lambda>r. row_id r = i" ?g "rows st"] u by simp
  with us have g: "getExerciseById ?st' i = Some (rename_row n now u)"
    by (simp add: getExerciseById_def)
  from assms have "filter (\<lambda>r. row_id r = i) (rows st) \<noteq> []"
    by (auto simp: filter_empty_conv)
  then have "0 < length (filter (\<lambda>r. row_id r = i) (rows st))" by simp
  with g have "put_exercise now i [(''exercise_name'', JString n)] st =
       (?st', Response 200 (ExerciseResult (transform (rename_row n now u))))"
    by (simp add: put_exercise_def updateExercise_name)
  with us show ?thesis by blast
qed

lemma not_distinct_names:
  assumes "x \<in> set xs" "y \<in> set xs" "x \<noteq> y" "exercise_name x = exercise_name y"
  shows "\<not> distinct (map exercise_name xs)"
proof
  assume "distinct (map exercise_name xs)"
  then have "inj_on exercise_name (set xs)" by (simp add: distinct_map)
  with assms show False by (auto dest: inj_onD)
qed

lemma post_exercise_existing:
  assumes "a \<in> set (rows st)" and "req_name req = Some (exercise_name a)"
  shows "post_exercise now req st = (st, Response 400 MissingFields) \<or>
         post_exercise now req st =
           (st, Response 409 (ErrorResult (Literal ''Exercise with this name already exists'')))"
proof -
  from assms(1) have "\<exists>y. find (\<lambda>r. exercise_name r = exercise_name a) (rows st) = Some y"
    by (rule find_Some_ex) simp
  then have "exerciseExists st (exercise_name a)" by (auto simp: exerciseExists_def)
  with assms(2) show ?thesis by (simp add: post_exercise_def)
qed

lemma post_exercise_keeps_names_distinct:
  assumes "distinct (map exercise_name (rows st))"
  shows "distinct (map exercise_name (rows (fst (post_exercise now req st))))"
proof (cases "fst (post_exercise now req st) = st")
  case True
  with assms show ?thesis by simp
next
  case False
  then obtain n where n: "req_name req = Some n" and ne: "\<not> exerciseExists st n"
    by (cases "req_name req") (auto simp: post_exercise_def falsy_def split: if_splits)
  from ne have "n \<notin> exercise_name ` set (rows st)"
    by (auto simp: exerciseExists_def find_None_iff)
  with assms n show ?thesis
    by (auto simp: post_exercise_def createExercise_def Let_def
        split: if_splits option.splits sum.splits)
qed

text \<open>
  C10. Creation keeps names unique: a request with the name of an existing record is
  refused and changes nothing, and a store with distinct names has distinct names after
  any creation request. The update does not: for records A and B with different ids,
  setting B's \<open>exercise_name\<close> to A's name answers 200 and leaves two records with that
  name.
\<close>

theorem update_breaks_name_uniqueness:
  assumes "a \<in> set (rows st)" and "b \<in> set (rows st)" and "row_id a \<noteq> row_id b"
  shows "(\<exists>st' v.
       put_exercise now (row_id b) [(''exercise_name'', JString (exercise_name a))] st =
         (st', Response 200 (ExerciseResult v)) \<and>
       t_id v = row_id b \<and> t_name v = exercise_name a \<and>
       a \<in> set (rows st') \<and>
       \<not> distinct (map exercise_name (rows st'))) \<and>
     (req_name req = Some (exercise_name a) \<longrightarrow>
        fst (post_exercise now req st) = st \<and>
        status (snd (post_exercise now req st)) \<in> {400, 409}) \<and>
     (distinct (map exercise_name (rows st)) \<longrightarrow>
        distinct (map exercise_name (rows (fst (post_exercise now req st)))))"
proof (intro conjI impI)
  let ?n = "exercise_name a"
  let ?i = "row_id b"
  let ?g = "\<lambda>r. if row_id r = ?i then rename_row ?n now r else r"
  let ?st' = "st\<lparr>rows := map ?g (rows st)\<rparr>"
  from assms(2) obtain u where u: "u \<in> set (rows st)" "row_id u = ?i"
    and p: "put_exercise now ?i [(''exercise_name'', JString ?n)] st =
       (?st', Response 200 (ExerciseResult (transform (rename_row ?n now u))))"
    using put_exercise_name [of b st ?i now ?n] by blast
  have a': "a \<in> set (rows ?st')"
    using assms(1,3) by (auto simp: image_iff intro!: bexI [of _ a])
  have b': "rename_row ?n now b \<in> set (rows ?st')"
    using assms(2) by (auto simp: image_iff intro!: bexI [of _ b])
  have "row_id (rename_row ?n now b) = row_id b"
    by (simp add: rename_row_def)
  with assms(3) have "a \<noteq> rename_row ?n now b"
    by auto
  moreover have "exercise_name a = exercise_name (rename_row ?n now b)"
    by (simp add: rename_row_def)
  ultimately have "\<not> distinct (map exercise_name (rows ?st'))"
    using a' b' by (rule not_distinct_names [rotated 2])
  moreover have "t_id (transform (rename_row ?n now u)) = ?i"
    "t_name (transform (rename_row ?n now u)) = ?n"
    using u by (simp_all add: transform_def rename_row_def)
  ultimately show "\<exists>st' v.
       put_exercise now ?i [(''exercise_name'', JString ?n)] st =
         (st', Response 200 (ExerciseResult v)) \<and>
       t_id v = ?i \<and> t_name v = ?n \<and> a \<in> set (rows st') \<and>
       \<not> distinct (map exercise_name (rows st'))"
    using p a' by blast
next
  assume "req_name req = Some (exercise_name a)"
  with assms(1) have "post_exercise now req st = (st, Response 400 MissingFields) \<or>
         post_exercise now req st =
           (st, Response 409 (ErrorResult (Literal ''Exercise with this name already exists'')))"
    by (rule post_exercise_existing)
  then show "fst (post_exercise now req st) = st"
    and "status (snd (post_exercise now req st)) \<in> {400, 409}"
    by auto
next
  assume "distinct (map exercise_name (rows st))"
  then show "distinct (map exercise_name (rows (fst (post_exercise now req st))))"
    by (rule post_exercise_keeps_names_distinct)
qed

theorem update_breaks_name_uniqueness_witness:
  "rows example_store ! 0 \<in> set (rows example_store) \<and>
   rows example_store ! 1 \<in> set (rows example_store) \<and>
   row_id (rows example_store ! 0) \<noteq> row_id (rows example_store ! 1) \<and>
   exercise_name (rows example_store ! 0) \<noteq> exercise_name (rows example_store ! 1) \<and>
   distinct (map exercise_name (rows example_store)) \<and>
   (\<exists>st' v.
      put_exercise ''2024-02-01 10:00:00'' 2 [(''exercise_name'', JString ''Curl'')] example_store =
        (st', Response 200 (ExerciseResult v)) \<and>
      t_id v = 2 \<and> t_name v = ''Curl'' \<and>
      \<not> distinct (map exercise_name (rows st')))"
proof -
  have h: "rows example_store ! 0 \<in> set (rows example_store)"
    "rows example_store ! 1 \<in> set (rows example_store)"
    "row_id (rows example_store ! 0) \<noteq> row_id (rows example_store ! 1)"
    by (simp_all add: example_store_def)
  have e: "exercise_name (rows example_store ! 0) \<noteq> exercise_name (rows example_store ! 1)"
    "distinct (map exercise_name (rows example_store))"
    "row_id (rows example_store ! 1) = 2"
    "exercise_name (rows example_store ! 0) = ''Curl''"
    by (simp_all add: example_store_def)
  have "\<exists>st' v.
      put_exercise ''2024-02-01 10:00:00'' (row_id (rows example_store ! 1))
        [(''exercise_name'', JString (exercise_name (rows example_store ! 0)))] example_store =
        (st', Response 200 (ExerciseResult v)) \<and>
      t_id v = row_id (rows example_store ! 1) \<and>
      t_name v = exercise_name (rows example_store ! 0) \<and>
      rows example_store ! 0 \<in> set (rows st') \<and>
      \<not> distinct (map exercise_name (rows st'))"
    by (rule update_breaks_name_uniqueness [OF h, THEN conjunct1])
  then have "\<exists>st' v.
      put_exercise ''2024-02-01 10:00:00'' 2 [(''exercise_name'', JString ''Curl'')] example_store =
        (st', Response 200 (ExerciseResult v)) \<and>
      t_id v = 2 \<and> t_name v = ''Curl'' \<and>
      \<not> distinct (map exercise_name (rows st'))"
    unfolding e(3,4) by blast
  with h e(1,2) show ?thesis by blast
qed

end
